theory Spec2Isabelle
  imports Complex_Main
begin

section \<open>JSON values as the route handler and the page see them\<close>

text \<open>
  Both source files work on values produced by \<^verbatim>\<open>JSON.parse\<close> and read them
  dynamically (\<^verbatim>\<open>typeof\<close>, \<^verbatim>\<open>Array.isArray\<close>, \<^verbatim>\<open>key in obj\<close>).
  The closed union below is that value space.  A mapping is the list of its own
  properties in \<^verbatim>\<open>Object.keys\<close> order.  A JavaScript string is a sequence of
  UTF-16 code units and \<^verbatim>\<open>.length\<close> counts them; here one \<^typ>\<open>char\<close> stands for
  one code unit.  A number is kept as its value; the code only tests numbers for
  truthiness.
\<close>

datatype json =
    JNull
  | JBool bool
  | JNum rat
  | JStr string
  | JArr "json list"
  | JObj "(string \<times> json) list"

text \<open>\<^verbatim>\<open>typeof v === 'object'\<close>: true of \<^verbatim>\<open>null\<close>, arrays and mappings.\<close>

fun typeof_object :: "json \<Rightarrow> bool" where
  "typeof_object JNull = True"
| "typeof_object (JArr _) = True"
| "typeof_object (JObj _) = True"
| "typeof_object _ = False"

text \<open>\<^verbatim>\<open>v && typeof v === 'object'\<close>: arrays and mappings, not \<^verbatim>\<open>null\<close>.\<close>

fun truthy_object :: "json \<Rightarrow> bool" where
  "truthy_object (JArr _) = True"
| "truthy_object (JObj _) = True"
| "truthy_object _ = False"

section \<open>\<^verbatim>\<open>deepExtractAssetIds\<close> (route.ts)\<close>

definition idKeys :: "string list" where
  "idKeys =
    [''asset_id'', ''assetId'', ''asset_ids'', ''assetIds'',
     ''id'', ''_id'', ''file_id'', ''fileId'',
     ''upload_id'', ''uploadId'', ''document_id'', ''documentId'']"

text \<open>
  What one recognised key contributes (the body of the loop over \<^verbatim>\<open>idKeys\<close>):
  a non-empty string is pushed; of an array, every non-empty string element is
  pushed; anything else contributes nothing.
\<close>

fun nonEmptyString :: "json \<Rightarrow> string list" where
  "nonEmptyString (JStr v) = (if length v > 0 then [v] else [])"
| "nonEmptyString _ = []"

fun idsOfValue :: "json \<Rightarrow> string list" where
  "idsOfValue (JStr val) = (if length val > 0 then [val] else [])"
| "idsOfValue (JArr val) = concat (map nonEmptyString val)"
| "idsOfValue _ = []"

text \<open>
  The loop \<^verbatim>\<open>for (const key of idKeys) { if (key in obj) ... }\<close>, with the
  pushes collected in order.
\<close>

definition scanIdKeys :: "(string \<times> json) list \<Rightarrow> string list" where
  "scanIdKeys obj =
     concat (map (\<lambda>key. case map_of obj key of
                            None \<Rightarrow> []
                          | Some val \<Rightarrow> idsOfValue val) idKeys)"

text \<open>
  The resolver.  The depth test comes first in the source and returns the empty list;
  so does the test \<^verbatim>\<open>!obj || typeof obj !== 'object'\<close> for every value that is
  neither an array nor a mapping.  Each \<^verbatim>\<open>for\<close> loop pushes onto \<^verbatim>\<open>ids\<close> in
  iteration order, which is the concatenation of what each iteration pushes.
\<close>

fun deepExtractAssetIds :: "json \<Rightarrow> nat \<Rightarrow> string list" where
  "deepExtractAssetIds (JArr obj) depth =
     (if depth > 10 then []
      else concat (map (\<lambda>item.
             case item of
               JStr s \<Rightarrow> (if length s \<ge> 10 then [s] else [])
             | _ \<Rightarrow> (if typeof_object item
                     then deepExtractAssetIds item (depth + 1) else [])) obj))"
| "deepExtractAssetIds (JObj obj) depth =
     (if depth > 10 then []
      else (let ids = scanIdKeys obj in
            if length ids = 0
            then concat (map (\<lambda>(key, val).
                   if truthy_object val
                   then deepExtractAssetIds val (depth + 1) else []) obj)
            else ids))"
| "deepExtractAssetIds _ depth = []"

text \<open>The entry point: \<^verbatim>\<open>deepExtractAssetIds(data)\<close> uses the default \<^verbatim>\<open>depth = 0\<close>.\<close>

definition resolve :: "json \<Rightarrow> string list" where
  "resolve raw = deepExtractAssetIds raw 0"


section \<open>Dynamic reads of JavaScript values\<close>

text \<open>
  A JavaScript value is a \<^typ>\<open>json option\<close>: \<open>None\<close> is \<^verbatim>\<open>undefined\<close> and
  \<open>Some JNull\<close> is \<^verbatim>\<open>null\<close>.
\<close>

fun truthy :: "json option \<Rightarrow> bool" where
  "truthy None = False"
| "truthy (Some JNull) = False"
| "truthy (Some (JBool b)) = b"
| "truthy (Some (JNum q)) = (q \<noteq> 0)"
| "truthy (Some (JStr s)) = (s \<noteq> [])"
| "truthy (Some (JArr _)) = True"
| "truthy (Some (JObj _)) = True"

text \<open>\<^verbatim>\<open>a || b\<close> and \<^verbatim>\<open>a ?? b\<close>.\<close>

definition js_or :: "json option \<Rightarrow> json option \<Rightarrow> json option" where
  "js_or a b = (if truthy a then a else b)"

fun nullish :: "json option \<Rightarrow> bool" where
  "nullish None = True"
| "nullish (Some JNull) = True"
| "nullish _ = False"

definition js_nc :: "json option \<Rightarrow> json option \<Rightarrow> json option" where
  "js_nc a b = (if nullish a then b else a)"

text \<open>
  \<^verbatim>\<open>x?.key\<close>: \<^verbatim>\<open>undefined\<close> when \<^verbatim>\<open>x\<close> is \<^verbatim>\<open>null\<close> or \<^verbatim>\<open>undefined\<close>,
  the property of a mapping, and \<^verbatim>\<open>undefined\<close> on strings, numbers, booleans and
  arrays (none of the property names read in the two files is a built-in property of
  those).
\<close>

fun opt_get :: "json option \<Rightarrow> string \<Rightarrow> json option" where
  "opt_get (Some (JObj kvs)) key = map_of kvs key"
| "opt_get _ key = None"

fun isArray :: "json option \<Rightarrow> bool" where
  "isArray (Some (JArr _)) = True"
| "isArray _ = False"

fun elements :: "json option \<Rightarrow> json list" where
  "elements (Some (JArr xs)) = xs"
| "elements _ = []"

text \<open>
  What a \<^verbatim>\<open>catch\<close> clause receives, reduced to the text both files read from it
  (\<^verbatim>\<open>error instanceof Error ? error.message : String(error)\<close>).
\<close>

datatype thrown = Thrown string

section \<open>The upload route: \<^verbatim>\<open>POST\<close> (route.ts)\<close>

text \<open>
  Of the two revisions of the handler that the file holds, the model is the one that
  calls \<^verbatim>\<open>deepExtractAssetIds\<close>.
\<close>

definition LYZR_UPLOAD_URL :: string where
  "LYZR_UPLOAD_URL = ''https://agent-prod.studio.lyzr.ai/v3/assets/upload''"

text \<open>An entry of the incoming form: a \<^verbatim>\<open>File\<close> (name, type, bytes) or a plain string.\<close>

datatype form_entry = File string string "nat list" | Text string

text \<open>A \<^verbatim>\<open>Blob\<close>: its bytes and its type.\<close>

type_synonym blob = "nat list \<times> string"

record file_entry =
  entry_name :: string
  entry_blob :: blob

text \<open>The upstream \<^verbatim>\<open>Response\<close>: its status, and what \<^verbatim>\<open>await response.text()\<close> gives.\<close>

record upstream_response =
  resp_status :: nat
  resp_text :: "thrown + string"

definition ok :: "upstream_response \<Rightarrow> bool" where
  "ok r = (200 \<le> resp_status r \<and> resp_status r \<le> 299)"

text \<open>
  What the handler takes from its surroundings: the environment variable, \<^verbatim>\<open>fetch\<close>
  (URL, key header, the multipart form as field name, blob and file name of each part),
  \<^verbatim>\<open>JSON.parse\<close> (\<open>None\<close> when it throws), the clock, the text of the engine's
  \<^verbatim>\<open>TypeError\<close> for reading a property of \<^verbatim>\<open>null\<close>, and the text of the
  error that building a response throws for a status it cannot carry with a body.
\<close>

record route_env =
  env_LYZR_API_KEY :: "string option"
  fetch :: "string \<Rightarrow> string \<Rightarrow> (string \<times> blob \<times> string) list \<Rightarrow> thrown + upstream_response"
  JSON_parse :: "string \<Rightarrow> json option"
  now_ISO :: string
  nullReadMessage :: "string \<Rightarrow> string"
  responseInitMessage :: "nat \<Rightarrow> string"

text \<open>\<^verbatim>\<open>process.env.LYZR_API_KEY || ''\<close>.\<close>

definition LYZR_API_KEY :: "route_env \<Rightarrow> string" where
  "LYZR_API_KEY env = (case env_LYZR_API_KEY env of None \<Rightarrow> [] | Some k \<Rightarrow> k)"

text \<open>The request: \<^verbatim>\<open>await request.formData()\<close>, which may throw.\<close>

type_synonym request = "thrown + (string \<times> form_entry) list"

definition getAll :: "(string \<times> form_entry) list \<Rightarrow> string \<Rightarrow> form_entry list" where
  "getAll formData field = map snd (filter (\<lambda>(k, v). k = field) formData)"

record file_info =
  fi_asset_id :: "json option"
  fi_file_name :: "json option"
  fi_success :: "json option"
  fi_error :: "json option"

record debug_info =
  raw_keys :: "string list"
  raw_response :: string
  debug_status :: nat

record upload_body =
  success :: bool
  asset_ids :: "string list"
  files :: "file_info list"
  total_files :: "json option"
  successful_uploads :: nat
  failed_uploads :: nat
  message :: string
  timestamp :: string
  error :: "json option"
  debug :: "debug_info option"

record http_response =
  http_status :: nat
  body :: upload_body

text \<open>Decimal text of a number, as a template literal prints it.\<close>

definition digit :: "nat \<Rightarrow> char" where
  "digit n = char_of (48 + n)"

function decimal :: "nat \<Rightarrow> string" where
  "decimal n = (if n < 10 then [digit n] else decimal (n div 10) @ [digit (n mod 10)])"
  by pat_completeness auto
termination
  by (relation "measure id") auto

definition num :: "nat \<Rightarrow> json option" where
  "num n = Some (JNum (of_nat n))"

text \<open>The loop that converts the incoming files (only \<^verbatim>\<open>File\<close> instances are kept).\<close>

fun fileEntries :: "form_entry list \<Rightarrow> file_entry list" where
  "fileEntries [] = []"
| "fileEntries (File name type bytes # rest) =
     \<lparr>entry_name = name,
      entry_blob = (bytes, if type = [] then ''application/octet-stream'' else type)\<rparr>
       # fileEntries rest"
| "fileEntries (Text _ # rest) = fileEntries rest"

text \<open>The variables the upload loop assigns.\<close>

record loop_vars =
  response :: "upstream_response option"
  responseText :: string
  data :: json

text \<open>
  The loop \<^verbatim>\<open>for (const fieldName of ['file', 'files'])\<close>.  Beside its outcome it
  returns the field names it has called \<^verbatim>\<open>fetch\<close> with, in order.
\<close>

fun uploadLoop ::
  "route_env \<Rightarrow> file_entry list \<Rightarrow> string list \<Rightarrow> loop_vars \<Rightarrow> string list
     \<Rightarrow> (thrown + loop_vars) \<times> string list" where
  "uploadLoop env entries [] vars called = (Inr vars, called)"
| "uploadLoop env entries (fieldName # rest) vars called =
     (let uploadFormData = map (\<lambda>entry. (fieldName, entry_blob entry, entry_name entry)) entries;
          called' = called @ [fieldName]
      in case fetch env LYZR_UPLOAD_URL (LYZR_API_KEY env) uploadFormData of
           Inl e \<Rightarrow> (Inl e, called')
         | Inr r \<Rightarrow>
            (case resp_text r of
               Inl e \<Rightarrow> (Inl e, called')
             | Inr txt \<Rightarrow>
                (let d = (case JSON_parse env txt of
                            Some v \<Rightarrow> v
                          | None \<Rightarrow> JObj [(''_raw'', JStr txt)]);
                     vars' = \<lparr>response = Some r, responseText = txt, data = d\<rparr>
                 in if ok r \<and> length (deepExtractAssetIds d 0) > 0 then (Inr vars', called')
                    else if resp_status r = 422 \<or> resp_status r = 400
                      then uploadLoop env entries rest vars' called'
                    else (Inr vars', called'))))"


text \<open>
  One record of \<^verbatim>\<open>resultArrays.map((r) => ({ ... }))\<close>.  Reading a property of a
  \<^verbatim>\<open>null\<close> element throws.
\<close>

definition fileInfo :: "route_env \<Rightarrow> json \<Rightarrow> thrown + file_info" where
  "fileInfo env r =
     (case r of
        JNull \<Rightarrow> Inl (Thrown (nullReadMessage env ''asset_id''))
      | _ \<Rightarrow>
        (let v = Some r in
         Inr \<lparr>fi_asset_id =
                js_or (js_or (js_or (js_or (js_or (opt_get v ''asset_id'') (opt_get v ''assetId''))
                  (opt_get v ''id'')) (opt_get v ''_id'')) (opt_get v ''file_id''))
                  (Some (JStr [])),
              fi_file_name =
                js_or (js_or (js_or (js_or (opt_get v ''file_name'') (opt_get v ''filename''))
                  (opt_get v ''name'')) (opt_get v ''original_name''))
                  (Some (JStr [])),
              fi_success = js_nc (opt_get v ''success'') (Some (JBool True)),
              fi_error = opt_get v ''error''\<rparr>))"

fun fileInfos :: "route_env \<Rightarrow> json list \<Rightarrow> thrown + file_info list" where
  "fileInfos env [] = Inr []"
| "fileInfos env (r # rs) =
     (case fileInfo env r of
        Inl e \<Rightarrow> Inl e
      | Inr f \<Rightarrow> (case fileInfos env rs of Inl e \<Rightarrow> Inl e | Inr fs \<Rightarrow> Inr (f # fs)))"

text \<open>
  \<^verbatim>\<open>data.results || data.files || (Array.isArray(data) ? data : null)\<close>; the first
  read throws when \<^verbatim>\<open>data\<close> is \<^verbatim>\<open>null\<close>.
\<close>

definition resultArrays :: "route_env \<Rightarrow> json \<Rightarrow> thrown + json option" where
  "resultArrays env d =
     (case d of
        JNull \<Rightarrow> Inl (Thrown (nullReadMessage env ''results''))
      | _ \<Rightarrow> Inr (js_or (js_or (opt_get (Some d) ''results'') (opt_get (Some d) ''files''))
                       (if isArray (Some d) then Some d else Some JNull)))"

definition uploadedFiles ::
  "route_env \<Rightarrow> file_entry list \<Rightarrow> json \<Rightarrow> string list \<Rightarrow> thrown + file_info list" where
  "uploadedFiles env entries d assetIds =
     (case resultArrays env d of
        Inl e \<Rightarrow> Inl e
      | Inr ra \<Rightarrow>
          if isArray ra then fileInfos env (elements ra)
          else if length assetIds > 0
            then Inr (map (\<lambda>i.
                   \<lparr>fi_asset_id = Some (JStr i),
                    fi_file_name =
                      js_or (case entries of [] \<Rightarrow> None | e # _ \<Rightarrow> Some (JStr (entry_name e)))
                            (Some (JStr [])),
                    fi_success = Some (JBool True),
                    fi_error = None\<rparr>) assetIds)
          else Inr [])"

text \<open>\<^verbatim>\<open>typeof data === 'object' ? Object.keys(data) : []\<close>, for \<^verbatim>\<open>data\<close> not \<^verbatim>\<open>null\<close>.\<close>

fun objectKeys :: "json \<Rightarrow> string list" where
  "objectKeys (JObj kvs) = map fst kvs"
| "objectKeys (JArr xs) = map decimal [0..<length xs]"
| "objectKeys _ = []"

text \<open>The branch \<^verbatim>\<open>if (response.ok)\<close>.\<close>

definition okResponse ::
  "route_env \<Rightarrow> form_entry list \<Rightarrow> file_entry list \<Rightarrow> upstream_response \<Rightarrow> string \<Rightarrow> json
     \<Rightarrow> thrown + http_response" where
  "okResponse env fs entries r txt d =
     (let assetIds = deepExtractAssetIds d 0 in
      case uploadedFiles env entries d assetIds of
        Inl e \<Rightarrow> Inl e
      | Inr ufs \<Rightarrow>
          Inr \<lparr>http_status = 200,
               body = \<lparr>success = (length assetIds > 0),
                        asset_ids = assetIds,
                        files = ufs,
                        total_files = js_or (opt_get (Some d) ''total_files'') (num (length fs)),
                        successful_uploads = length assetIds,
                        failed_uploads = (if length assetIds > 0 then 0 else length fs),
                        message =
                          (if length assetIds > 0
                           then ''Successfully uploaded '' @ decimal (length assetIds) @ '' file(s)''
                           else ''Upload completed but no asset IDs found in response''),
                        timestamp = now_ISO env,
                        error = None,
                        debug =
                          (if length assetIds = 0
                           then Some \<lparr>raw_keys = objectKeys d,
                                       raw_response = take 500 txt,
                                       debug_status = resp_status r\<rparr>
                           else None)\<rparr>\<rparr>)"

text \<open>
  \<^verbatim>\<open>NextResponse.json(body, { status })\<close> builds a response with a body.  It throws
  for a status outside 200..599 and for a status that allows no body (204, 205, 304).
  The handler passes the literal statuses 400 and 500, the default 200, and in one
  place the status of the upstream.
\<close>

definition carriesBody :: "nat \<Rightarrow> bool" where
  "carriesBody n = (200 \<le> n \<and> n \<le> 599 \<and> n \<noteq> 204 \<and> n \<noteq> 205 \<and> n \<noteq> 304)"

text \<open>
  The branch for an upstream status outside 200..299: the response takes the status of
  the upstream, and building it throws when that status cannot carry a body.
\<close>

definition failedResponse ::
  "route_env \<Rightarrow> form_entry list \<Rightarrow> upstream_response \<Rightarrow> string \<Rightarrow> json
     \<Rightarrow> thrown + http_response" where
  "failedResponse env fs r txt d =
     (if carriesBody (resp_status r)
      then Inr \<lparr>http_status = resp_status r,
                body = \<lparr>success = False,
                         asset_ids = [],
                         files = [],
                         total_files = num (length fs),
                         successful_uploads = 0,
                         failed_uploads = length fs,
                         message = ''Upload failed with status '' @ decimal (resp_status r),
                         timestamp = now_ISO env,
                         error =
                           js_or (js_or (js_or (opt_get (Some d) ''detail'')
                             (opt_get (Some d) ''message'')) (opt_get (Some d) ''error''))
                             (Some (JStr (take 300 txt))),
                         debug = None\<rparr>\<rparr>
      else Inl (Thrown (responseInitMessage env (resp_status r))))"

text \<open>The \<^verbatim>\<open>catch\<close> clause of the handler.\<close>

fun serverError :: "route_env \<Rightarrow> thrown \<Rightarrow> http_response" where
  "serverError env (Thrown msg) =
     \<lparr>http_status = 500,
      body = \<lparr>success = False,
               asset_ids = [],
               files = [],
               total_files = num 0,
               successful_uploads = 0,
               failed_uploads = 0,
               message = ''Server error during upload'',
               timestamp = now_ISO env,
               error = Some (JStr msg),
               debug = None\<rparr>\<rparr>"

text \<open>
  The handler.  It returns the HTTP response together with the field names of the
  upstream calls it has made.
\<close>

definition POST_run :: "route_env \<Rightarrow> request \<Rightarrow> http_response \<times> string list" where
  "POST_run env req =
     (if LYZR_API_KEY env = []
      then (\<lparr>http_status = 500,
             body = \<lparr>success = False, asset_ids = [], files = [], total_files = num 0,
                      successful_uploads = 0, failed_uploads = 0,
                      message = ''LYZR_API_KEY not configured'',
                      timestamp = now_ISO env,
                      error = Some (JStr ''LYZR_API_KEY not configured on server''),
                      debug = None\<rparr>\<rparr>, [])
      else
        case req of
          Inl e \<Rightarrow> (serverError env e, [])
        | Inr formData \<Rightarrow>
           (let fs = getAll formData ''files'' in
            if length fs = 0
            then (\<lparr>http_status = 400,
                   body = \<lparr>success = False, asset_ids = [], files = [], total_files = num 0,
                            successful_uploads = 0, failed_uploads = 0,
                            message = ''No files provided'',
                            timestamp = now_ISO env,
                            error = Some (JStr ''No files provided''),
                            debug = None\<rparr>\<rparr>, [])
            else
              (let entries = fileEntries fs in
               case uploadLoop env entries [''file'', ''files'']
                      \<lparr>response = None, responseText = [], data = JObj []\<rparr> [] of
                 (Inl e, called) \<Rightarrow> (serverError env e, called)
               | (Inr vars, called) \<Rightarrow>
                  (case response vars of
                     None \<Rightarrow>
                       (\<lparr>http_status = 500,
                         body = \<lparr>success = False, asset_ids = [], files = [],
                                  total_files = num (length fs),
                                  successful_uploads = 0, failed_uploads = length fs,
                                  message = ''Failed to connect to upload API'',
                                  timestamp = now_ISO env,
                                  error = Some (JStr ''No response received from upload API''),
                                  debug = None\<rparr>\<rparr>, called)
                   | Some r \<Rightarrow>
                       if ok r
                       then (case okResponse env fs entries r (responseText vars) (data vars) of
                               Inl e \<Rightarrow> (serverError env e, called)
                             | Inr res \<Rightarrow> (res, called))
                       else (case failedResponse env fs r (responseText vars) (data vars) of
                               Inl e \<Rightarrow> (serverError env e, called)
                             | Inr res \<Rightarrow> (res, called))))))"

definition POST :: "route_env \<Rightarrow> request \<Rightarrow> http_response" where
  "POST env req = fst (POST_run env req)"

definition uploadAttempts :: "route_env \<Rightarrow> request \<Rightarrow> string list" where
  "uploadAttempts env req = snd (POST_run env req)"


section \<open>The page: \<^verbatim>\<open>handleAnalyze\<close> and the reads of \<^verbatim>\<open>InsightsDisplay\<close> (page.tsx)\<close>

definition AGENT_ID :: string where
  "AGENT_ID = ''6996cd83744b96afe6ba69ee''"

definition analyzeMessage :: string where
  "analyzeMessage =
     ''Analyze this data file and provide a comprehensive executive summary with key findings, data patterns, anomalies, recommendations, and statistics.''"

text \<open>
  The state hooks that \<^verbatim>\<open>handleAnalyze\<close> reads or sets (\<^verbatim>\<open>error\<close> is
  \<open>errorMsg\<close> here).  A hook holding \<^verbatim>\<open>null\<close> is \<open>Some JNull\<close>.
\<close>

record page_state =
  assetIds :: "string list"
  analyzing :: bool
  insights :: "json option"
  pdfUrl :: "json option"
  errorMsg :: "json option"
  sessionId :: "json option"
  activeAgentId :: "string option"
  processing :: bool

text \<open>
  What the page takes from its surroundings: \<^verbatim>\<open>callAIAgent\<close> (message, agent
  identifier, options), which may throw, and \<^verbatim>\<open>JSON.parse\<close>.
\<close>

record page_env =
  callAIAgent :: "string \<Rightarrow> string \<Rightarrow> json \<Rightarrow> thrown + json option"
  page_JSON_parse :: "string \<Rightarrow> json option"

text \<open>The body of \<^verbatim>\<open>try\<close> after the call has returned \<^verbatim>\<open>result\<close>.\<close>

definition onResult :: "page_env \<Rightarrow> json option \<Rightarrow> page_state \<Rightarrow> page_state" where
  "onResult env result st =
     (let st1 = (if truthy (opt_get result ''session_id'')
                 then st\<lparr>sessionId := opt_get result ''session_id''\<rparr> else st)
      in if truthy (opt_get result ''success'')
         then
           (let parsedResult = opt_get (opt_get result ''response'') ''result'';
                parsedResult' =
                  (case parsedResult of
                     Some (JStr s) \<Rightarrow>
                       (case page_JSON_parse env s of
                          Some v \<Rightarrow> Some v
                        | None \<Rightarrow> Some (JObj [(''executive_summary'', JStr s)]))
                   | _ \<Rightarrow> parsedResult);
                st2 = st1\<lparr>insights := parsedResult'\<rparr>;
                artifacts = opt_get (opt_get result ''module_outputs'') ''artifact_files''
            in if isArray artifacts \<and> length (elements artifacts) > 0
               then (let url = opt_get (Some (hd (elements artifacts))) ''file_url''
                     in if truthy url then st2\<lparr>pdfUrl := url\<rparr> else st2)
               else st2)
         else
           st1\<lparr>errorMsg :=
                 js_nc (js_nc (opt_get result ''error'')
                              (opt_get (opt_get result ''response'') ''message''))
                       (Some (JStr ''Analysis failed. Please try again.''))\<rparr>)"

definition handleAnalyze :: "page_env \<Rightarrow> page_state \<Rightarrow> page_state" where
  "handleAnalyze env st =
     (if length (assetIds st) = 0 then st
      else
        (let st0 = st\<lparr>analyzing := True, errorMsg := Some JNull, insights := Some JNull,
                       pdfUrl := Some JNull, activeAgentId := Some AGENT_ID,
                       processing := True\<rparr>;
             st1 = (case callAIAgent env analyzeMessage AGENT_ID
                           (JObj [(''assets'', JArr (map JStr (assetIds st)))]) of
                      Inr result \<Rightarrow> onResult env result st0
                    | Inl e \<Rightarrow>
                        st0\<lparr>errorMsg :=
                              Some (JStr ''Network error. Please check your connection and try again.'')\<rparr>)
         in st1\<lparr>analyzing := False, activeAgentId := None, processing := False\<rparr>))"

text \<open>The reads at the head of \<^verbatim>\<open>InsightsDisplay\<close> and in its markup.\<close>

definition arrayOrEmpty :: "json option \<Rightarrow> json list" where
  "arrayOrEmpty v = (if isArray v then elements v else [])"

definition findings :: "json option \<Rightarrow> json list" where
  "findings d = arrayOrEmpty (opt_get d ''key_findings'')"

definition patterns :: "json option \<Rightarrow> json list" where
  "patterns d = arrayOrEmpty (opt_get d ''data_patterns'')"

definition anomalies :: "json option \<Rightarrow> json list" where
  "anomalies d = arrayOrEmpty (opt_get d ''anomalies'')"

definition recommendations :: "json option \<Rightarrow> json list" where
  "recommendations d = arrayOrEmpty (opt_get d ''recommendations'')"

definition keyMetrics :: "json option \<Rightarrow> json list" where
  "keyMetrics d = arrayOrEmpty (opt_get (opt_get d ''statistics'') ''key_metrics'')"

definition rowsShown :: "json option \<Rightarrow> json option" where
  "rowsShown d = js_nc (opt_get (opt_get d ''statistics'') ''total_rows'') (Some (JStr ''--''))"

definition columnsShown :: "json option \<Rightarrow> json option" where
  "columnsShown d =
     js_nc (opt_get (opt_get d ''statistics'') ''total_columns'') (Some (JStr ''--''))"

definition summaryShown :: "json option \<Rightarrow> json option" where
  "summaryShown d = js_nc (opt_get d ''executive_summary'') (Some (JStr []))"

section \<open>Measures and test inputs used in the statements\<close>


text \<open>
  The strings that sit under a recognised key somewhere in a JSON value: the value of
  the key itself, or an element of the array that is its value.
\<close>

fun namedStrings :: "json \<Rightarrow> string list" where
  "namedStrings (JArr xs) = concat (map namedStrings xs)"
| "namedStrings (JObj kvs) =
     concat (map (\<lambda>(k, v). (if k \<in> set idKeys then idsOfValue v else []) @ namedStrings v) kvs)"
| "namedStrings _ = []"

text \<open>\<open>wrap n v\<close> puts \<open>v\<close> under \<open>n\<close> mappings with the one key \<^verbatim>\<open>data\<close>.\<close>

fun wrap :: "nat \<Rightarrow> json \<Rightarrow> json" where
  "wrap 0 v = v"
| "wrap (Suc n) v = JObj [(''data'', wrap n v)]"

text \<open>
  A response whose only identifier is the \<^verbatim>\<open>id\<close> of the mapping reached after
  \<open>n\<close> steps down from the top, and which goes on for \<open>m\<close> more levels below it.
\<close>

definition nested :: "nat \<Rightarrow> nat \<Rightarrow> string \<Rightarrow> json" where
  "nested n m x = wrap n (JObj [(''id'', JStr x), (''data'', wrap m (JObj []))])"







text \<open>
  A level of nesting with a single entry: an array with one element, or a mapping with
  one key.  The level is plain when it is an array or its key is not recognised.
  \<open>enclose p v\<close> puts \<open>v\<close> under the levels \<open>p\<close>, the first of them outermost.
\<close>

datatype level = InArray | UnderKey string

fun plainLevel :: "level \<Rightarrow> bool" where
  "plainLevel InArray = True"
| "plainLevel (UnderKey k) = (k \<notin> set idKeys)"

fun enclose :: "level list \<Rightarrow> json \<Rightarrow> json" where
  "enclose [] v = v"
| "enclose (InArray # p) v = JArr [enclose p v]"
| "enclose (UnderKey k # p) v = JObj [(k, enclose p v)]"

text \<open>
  \<open>cut n v\<close> keeps the arrays and mappings of \<open>v\<close> down to \<open>n - 1\<close> levels below
  its top as they are, empties every mapping \<open>n\<close> levels below the top, and leaves of
  every array \<open>n\<close> levels below the top only its strings (\<^verbatim>\<open>null\<close> in place of
  every other element).
\<close>

fun cut :: "nat \<Rightarrow> json \<Rightarrow> json" where
  "cut 0 (JArr xs) = JArr (map (\<lambda>x. case x of JStr t \<Rightarrow> JStr t | _ \<Rightarrow> JNull) xs)"
| "cut 0 (JObj kvs) = JObj []"
| "cut (Suc n) (JArr xs) = JArr (map (cut n) xs)"
| "cut (Suc n) (JObj kvs) = JObj (map (\<lambda>(k, v). (k, cut n v)) kvs)"
| "cut n v = v"

text \<open>A path of \<open>n\<close> plain levels that alternates between arrays and mappings.\<close>

fun mixedPath :: "nat \<Rightarrow> level list" where
  "mixedPath 0 = []"
| "mixedPath (Suc n) = (if even n then InArray else UnderKey ''data'') # mixedPath n"



text \<open>The invariant of the upload result: \<open>success\<close> says whether identifiers were found.\<close>

definition invariant :: "upload_body \<Rightarrow> bool" where
  "invariant b = (success b = (length (asset_ids b) > 0))"

text \<open>The first upstream call of the handler, for the form it has received.\<close>

definition firstAttempt ::
  "route_env \<Rightarrow> (string \<times> form_entry) list \<Rightarrow> thrown + upstream_response" where
  "firstAttempt env formData =
     fetch env LYZR_UPLOAD_URL (LYZR_API_KEY env)
       (map (\<lambda>entry. (''file'', entry_blob entry, entry_name entry))
            (fileEntries (getAll formData ''files'')))"

text \<open>An attempt came back with a readable body and status 400 or 422.\<close>

definition clientErrorStatus :: "thrown + upstream_response \<Rightarrow> bool" where
  "clientErrorStatus a =
     (case a of
        Inl _ \<Rightarrow> False
      | Inr r \<Rightarrow> (case resp_text r of
                    Inl _ \<Rightarrow> False
                  | Inr _ \<Rightarrow> resp_status r = 400 \<or> resp_status r = 422))"

text \<open>
  An upstream that answers every call with status 200 and the body \<^verbatim>\<open>{}\<close>, a parser
  that knows this one text, and a request with one CSV file.
\<close>

definition answersEmptyObject ::
  "string \<Rightarrow> string \<Rightarrow> (string \<times> blob \<times> string) list \<Rightarrow> thrown + upstream_response" where
  "answersEmptyObject url key form = Inr \<lparr>resp_status = 200, resp_text = Inr ''{}''\<rparr>"

definition parsesEmptyObject :: "string \<Rightarrow> json option" where
  "parsesEmptyObject t = (if t = ''{}'' then Some (JObj []) else None)"

definition nullReadText :: "string \<Rightarrow> string" where
  "nullReadText key =
     ''Cannot read properties of null (reading '' @ [CHR 0x27] @ key @ [CHR 0x27] @ '')''"

definition responseInitText :: "nat \<Rightarrow> string" where
  "responseInitText n =
     (if 200 \<le> n \<and> n \<le> 599
      then ''Response constructor: Invalid response status code '' @ decimal n
      else ''init['' @ [CHR 0x22] @ ''status'' @ [CHR 0x22]
             @ ''] must be in the range of 200 to 599, inclusive.'')"

definition emptyObjectEnv :: route_env where
  "emptyObjectEnv =
     \<lparr>env_LYZR_API_KEY = Some ''key'',
      fetch = answersEmptyObject,
      JSON_parse = parsesEmptyObject,
      now_ISO = ''2024-01-01T00:00:00.000Z'',
      nullReadMessage = nullReadText,
      responseInitMessage = responseInitText\<rparr>"

definition oneFileForm :: "(string \<times> form_entry) list" where
  "oneFileForm = [(''files'', File ''data.csv'' ''text/csv'' [1, 2, 3])]"

text \<open>
  An upstream that rejects the field name \<^verbatim>\<open>file\<close> with status 422 and accepts
  \<^verbatim>\<open>files\<close>.
\<close>

definition rejectsFile ::
  "string \<Rightarrow> string \<Rightarrow> (string \<times> blob \<times> string) list \<Rightarrow> thrown + upstream_response" where
  "rejectsFile url key form =
     (if map fst form = [''file'']
      then Inr \<lparr>resp_status = 422, resp_text = Inr ''no''\<rparr>
      else Inr \<lparr>resp_status = 200, resp_text = Inr ''{}''\<rparr>)"

definition rejectsFileEnv :: route_env where
  "rejectsFileEnv =
     \<lparr>env_LYZR_API_KEY = Some ''key'',
      fetch = rejectsFile,
      JSON_parse = parsesEmptyObject,
      now_ISO = ''2024-01-01T00:00:00.000Z'',
      nullReadMessage = nullReadText,
      responseInitMessage = responseInitText\<rparr>"

text \<open>An agent that returns a fixed value, and a page that holds one asset identifier.\<close>

definition agentReturns :: "json option \<Rightarrow> string \<Rightarrow> string \<Rightarrow> json \<Rightarrow> thrown + json option" where
  "agentReturns raw msg agent opts = Inr raw"

definition agentEnv :: "json option \<Rightarrow> page_env" where
  "agentEnv raw = \<lparr>callAIAgent = agentReturns raw, page_JSON_parse = parsesEmptyObject\<rparr>"

definition readyState :: page_state where
  "readyState =
     \<lparr>assetIds = [''abc1234567''], analyzing = False, insights = Some JNull,
      pdfUrl = Some JNull, errorMsg = Some JNull, sessionId = Some JNull,
      activeAgentId = None, processing = False\<rparr>"

definition twoArtifacts :: json where
  "twoArtifacts =
     JObj [(''artifact_files'', JArr [JObj [(''file_url'', JStr ''U1'')],
                                        JObj [(''file_url'', JStr ''U2'')]])]"

text \<open>The arguments of the one call \<^verbatim>\<open>handleAnalyze\<close> makes.\<close>

definition agentCall :: "page_env \<Rightarrow> page_state \<Rightarrow> thrown + json option" where
  "agentCall env st =
     callAIAgent env analyzeMessage AGENT_ID (JObj [(''assets'', JArr (map JStr (assetIds st)))])"


definition notJsonResponse :: "json option" where
  "notJsonResponse =
     Some (JObj [(''success'', JBool True),
                 (''response'', JObj [(''result'', JStr ''not json'')])])"

definition failedResponseX :: "json option" where
  "failedResponseX = Some (JObj [(''success'', JBool False), (''error'', JStr ''X'')])"

definition failedWithArtifacts :: "json option" where
  "failedWithArtifacts =
     Some (JObj [(''success'', JBool False), (''module_outputs'', twoArtifacts)])"

definition succeededWithArtifacts :: "json option" where
  "succeededWithArtifacts =
     Some (JObj [(''success'', JBool True),
                 (''response'', JObj [(''result'', JObj [])]),
                 (''module_outputs'', twoArtifacts)])"

definition mixedArray :: json where
  "mixedArray =
     JArr [JStr ''short'', JStr ''long-identifier-123'', JObj [(''id'', JStr ''abc'')]]"

section \<open>Properties of the resolver\<close>

lemma distinct_idKeys: "distinct idKeys"
  by (simp add: idKeys_def)

text \<open>The two loops of the resolver, with the type tests that guard the recursive calls
  folded into the calls (a call on any other value returns the empty list).\<close>

lemma item_cases:
  "(case item of
      JStr s \<Rightarrow> (if length s \<ge> 10 then [s] else [])
    | _ \<Rightarrow> (if typeof_object item then deepExtractAssetIds item (depth + 1) else []))
   = (case item of
        JStr s \<Rightarrow> (if length s \<ge> 10 then [s] else [])
      | _ \<Rightarrow> deepExtractAssetIds item (depth + 1))"
  by (cases item) simp_all

lemma entry_cases:
  "(if truthy_object val then deepExtractAssetIds val (depth + 1) else [])
   = deepExtractAssetIds val (depth + 1)"
  by (cases val) simp_all

lemma deepExtractAssetIds_JArr:
  "deepExtractAssetIds (JArr obj) depth =
     (if depth > 10 then []
      else concat (map (\<lambda>item. case item of
               JStr s \<Rightarrow> (if length s \<ge> 10 then [s] else [])
             | _ \<Rightarrow> deepExtractAssetIds item (depth + 1)) obj))"
  by (simp add: item_cases)

lemma deepExtractAssetIds_JObj:
  "deepExtractAssetIds (JObj obj) depth =
     (if depth > 10 then []
      else if scanIdKeys obj = []
        then concat (map (\<lambda>(key, val). deepExtractAssetIds val (depth + 1)) obj)
        else scanIdKeys obj)"
  by (simp add: entry_cases Let_def)

lemma beyond_bound: "10 < d \<Longrightarrow> deepExtractAssetIds v d = []"
  by (cases v) simp_all

subsection \<open>Counting what is returned\<close>











subsection \<open>Where a returned string comes from\<close>

lemma scanIdKeys_named:
  assumes "s \<in> set (scanIdKeys obj)"
  shows "\<exists>k v. (k, v) \<in> set obj \<and> k \<in> set idKeys \<and> s \<in> set (idsOfValue v)"
proof -
  from assms obtain key where key: "key \<in> set idKeys"
    and s: "s \<in> set (case map_of obj key of None \<Rightarrow> [] | Some val \<Rightarrow> idsOfValue val)"
    by (auto simp: scanIdKeys_def)
  from s obtain val where val: "map_of obj key = Some val" and sv: "s \<in> set (idsOfValue val)"
    by (cases "map_of obj key") auto
  from val have "(key, val) \<in> set obj" by (rule map_of_SomeD)
  with key sv show ?thesis by blast
qed

lemma short_or_named:
  "s \<in> set (deepExtractAssetIds v d) \<Longrightarrow> 10 \<le> length s \<or> s \<in> set (namedStrings v)"
proof (induction v arbitrary: d)
  case (JArr xs)
  have nd: "\<not> 10 < d"
    using JArr.prems by (cases "10 < d") simp_all
  with JArr.prems have "s \<in> set (concat (map (\<lambda>item. case item of
               JStr s \<Rightarrow> (if length s \<ge> 10 then [s] else [])
             | _ \<Rightarrow> deepExtractAssetIds item (d + 1)) xs))"
    by (simp only: deepExtractAssetIds_JArr if_False)
  then obtain x where xin: "x \<in> set xs"
    and sx: "s \<in> set (case x of JStr s \<Rightarrow> (if length s \<ge> 10 then [s] else [])
                          | _ \<Rightarrow> deepExtractAssetIds x (d + 1))"
    by auto
  show ?case
  proof (cases "\<exists>t. x = JStr t")
    case True
    with sx show ?thesis by (auto split: if_splits)
  next
    case False
    with sx have "s \<in> set (deepExtractAssetIds x (d + 1))" by (cases x) auto
    with xin have "10 \<le> length s \<or> s \<in> set (namedStrings x)" by (rule JArr.IH)
    with xin show ?thesis by auto
  qed
next
  case (JObj kvs)
  have nd: "\<not> 10 < d"
    using JObj.prems by (cases "10 < d") simp_all
  show ?case
  proof (cases "scanIdKeys kvs = []")
    case True
    with JObj.prems nd
    have "s \<in> set (concat (map (\<lambda>(key, val). deepExtractAssetIds val (d + 1)) kvs))"
      by (simp add: deepExtractAssetIds_JObj del: deepExtractAssetIds.simps)
    then obtain k v where kv: "(k, v) \<in> set kvs"
      and sv: "s \<in> set (deepExtractAssetIds v (d + 1))"
      by auto
    have "v \<in> Basic_BNFs.snds (k, v)" by simp
    with kv have "10 \<le> length s \<or> s \<in> set (namedStrings v)" using sv by (rule JObj.IH)
    with kv show ?thesis by force
  next
    case False
    with JObj.prems nd have "s \<in> set (scanIdKeys kvs)"
      by (simp add: deepExtractAssetIds_JObj del: deepExtractAssetIds.simps)
    then obtain k v where "(k, v) \<in> set kvs" "k \<in> set idKeys" "s \<in> set (idsOfValue v)"
      using scanIdKeys_named by blast
    then show ?thesis by force
  qed
qed simp_all

lemma scan_data: "scanIdKeys [(''data'', v)] = []"
  by (simp add: scanIdKeys_def idKeys_def)

lemma deepExtractAssetIds_wrap:
  "deepExtractAssetIds (wrap n v) d = (if d + n \<le> 10 then deepExtractAssetIds v (d + n) else [])"
proof (induction n arbitrary: d)
  case 0
  then show ?case by (simp add: beyond_bound)
next
  case (Suc n)
  show ?case
    by (simp add: deepExtractAssetIds_JObj scan_data Suc.IH del: deepExtractAssetIds.simps)
qed

lemma scan_id: "x \<noteq> [] \<Longrightarrow> scanIdKeys [(''id'', JStr x), (''data'', v)] = [x]"
  by (simp add: scanIdKeys_def idKeys_def)

lemma scanIdKeys_cong:
  "(\<And>k. k \<in> set idKeys \<Longrightarrow> map_of obj' k = map_of obj k) \<Longrightarrow> scanIdKeys obj' = scanIdKeys obj"
  unfolding scanIdKeys_def by (rule arg_cong [where f = concat]) (simp cong: map_cong)

subsection \<open>Counting the discoveries exactly\<close>














subsection \<open>The depth bound on every kind of level\<close>

lemma truthy_object_enclose: "truthy_object v \<Longrightarrow> truthy_object (enclose p v)"
  by (induction p v rule: enclose.induct) simp_all

lemma scanIdKeys_plain: "k \<notin> set idKeys \<Longrightarrow> scanIdKeys [(k, v)] = []"
  by (auto simp: scanIdKeys_def)

lemma deepExtractAssetIds_enclose:
  "list_all plainLevel p \<Longrightarrow> truthy_object v \<Longrightarrow>
   deepExtractAssetIds (enclose p v) d
     = (if d + length p \<le> 10 then deepExtractAssetIds v (d + length p) else [])"
proof (induction p arbitrary: d)
  case Nil
  then show ?case by (simp add: beyond_bound)
next
  case (Cons l p)
  from Cons.prems have p: "list_all plainLevel p" by simp
  have ih: "deepExtractAssetIds (enclose p v) (d + 1)
     = (if d + 1 + length p \<le> 10 then deepExtractAssetIds v (d + 1 + length p) else [])"
    using p Cons.prems(2) by (rule Cons.IH)
  have obj: "truthy_object (enclose p v)"
    using Cons.prems(2) by (rule truthy_object_enclose)
  show ?case
  proof (cases l)
    case InArray
    have "deepExtractAssetIds (JArr [enclose p v]) d
          = (if d > 10 then [] else deepExtractAssetIds (enclose p v) (d + 1))"
      using obj by (cases "enclose p v") simp_all
    with InArray ih show ?thesis by simp
  next
    case (UnderKey k)
    with Cons.prems have "k \<notin> set idKeys" by simp
    then have "deepExtractAssetIds (JObj [(k, enclose p v)]) d
          = (if d > 10 then [] else deepExtractAssetIds (enclose p v) (d + 1))"
      by (simp add: deepExtractAssetIds_JObj scanIdKeys_plain del: deepExtractAssetIds.simps)
    with UnderKey ih show ?thesis by simp
  qed
qed

lemma concat_single_key:
  "distinct ks \<Longrightarrow> k \<in> set ks \<Longrightarrow> concat (map (\<lambda>key. if key = k then ys else []) ks) = ys"
proof (induction ks)
  case Nil
  then show ?case by simp
next
  case (Cons a ks)
  show ?case
  proof (cases "a = k")
    case True
    with Cons.prems have "k \<notin> set ks" by simp
    then have "concat (map (\<lambda>key. if key = k then ys else []) ks) = []"
      by (induction ks) auto
    with True show ?thesis by simp
  next
    case False
    with Cons show ?thesis by simp
  qed
qed

lemma scanIdKeys_leaf:
  assumes "k \<in> set idKeys" and "x \<noteq> []" and "k' \<notin> set idKeys"
  shows "scanIdKeys [(k, JStr x), (k', deeper)] = [x]"
proof -
  have "scanIdKeys [(k, JStr x), (k', deeper)]
        = concat (map (\<lambda>key. if key = k then [x] else []) idKeys)"
    unfolding scanIdKeys_def
    by (rule arg_cong [where f = concat], rule map_cong [OF refl]) (use assms in auto)
  also have "\<dots> = [x]"
    using distinct_idKeys assms(1) by (rule concat_single_key)
  finally show ?thesis .
qed

lemma resolve_enclosed_key:
  assumes "list_all plainLevel p" and "k \<in> set idKeys" and "x \<noteq> []" and "k' \<notin> set idKeys"
  shows "resolve (enclose p (JObj [(k, JStr x), (k', deeper)]))
         = (if length p \<le> 10 then [x] else [])"
  using assms(1)
  by (simp add: resolve_def deepExtractAssetIds_enclose deepExtractAssetIds_JObj
        scanIdKeys_leaf [OF assms(2-4)] del: deepExtractAssetIds.simps)

lemma resolve_enclosed_array:
  assumes "list_all plainLevel p" and "10 \<le> length x"
  shows "resolve (enclose p (JArr [JStr x])) = (if length p \<le> 10 then [x] else [])"
  using assms
  by (simp add: resolve_def deepExtractAssetIds_enclose deepExtractAssetIds_JArr
        del: deepExtractAssetIds.simps)

lemma nonEmptyString_cut: "nonEmptyString (cut n x) = nonEmptyString x"
  by (cases x; cases n) simp_all

lemma nonEmptyString_keep:
  "nonEmptyString (case x of JStr t \<Rightarrow> JStr t | _ \<Rightarrow> JNull) = nonEmptyString x"
  by (cases x) simp_all

lemma idsOfValue_cut: "idsOfValue (cut n v) = idsOfValue v"
  by (cases v; cases n) (simp_all add: comp_def nonEmptyString_cut nonEmptyString_keep)

lemma scanIdKeys_cut:
  "scanIdKeys (map (\<lambda>(k, v). (k, cut n v)) kvs) = scanIdKeys kvs"
  unfolding scanIdKeys_def
  by (rule arg_cong [where f = concat], rule map_cong [OF refl])
     (simp add: map_of_map idsOfValue_cut split: option.splits)

lemma cut_not_string: "(\<exists>t. cut n x = JStr t) = (\<exists>t. x = JStr t)"
  by (cases x; cases n) simp_all

lemma deepExtractAssetIds_cut:
  "11 \<le> n + d \<Longrightarrow> deepExtractAssetIds (cut n v) d = deepExtractAssetIds v d"
proof (induction v arbitrary: n d)
  case (JArr xs)
  show ?case
  proof (cases "10 < d")
    case True
    then show ?thesis by (simp add: beyond_bound del: deepExtractAssetIds.simps)
  next
    case False
    with JArr.prems obtain m where n: "n = Suc m" and m: "11 \<le> m + (d + 1)"
      by (cases n) auto
    have "map (\<lambda>item. case item of
               JStr s \<Rightarrow> (if length s \<ge> 10 then [s] else [])
             | _ \<Rightarrow> deepExtractAssetIds item (d + 1)) (map (cut m) xs)
        = map (\<lambda>item. case item of
               JStr s \<Rightarrow> (if length s \<ge> 10 then [s] else [])
             | _ \<Rightarrow> deepExtractAssetIds item (d + 1)) xs"
    proof (simp only: map_map comp_def, rule map_cong [OF refl])
      fix x assume xin: "x \<in> set xs"
      have ih: "deepExtractAssetIds (cut m x) (d + 1) = deepExtractAssetIds x (d + 1)"
        using xin m by (rule JArr.IH)
      show "(case cut m x of
               JStr s \<Rightarrow> (if length s \<ge> 10 then [s] else [])
             | _ \<Rightarrow> deepExtractAssetIds (cut m x) (d + 1))
          = (case x of
               JStr s \<Rightarrow> (if length s \<ge> 10 then [s] else [])
             | _ \<Rightarrow> deepExtractAssetIds x (d + 1))"
        by (cases x; cases m) (use ih in simp_all)
    qed
    then show ?thesis
      by (simp only: n cut.simps deepExtractAssetIds_JArr)
  qed
next
  case (JObj kvs)
  show ?case
  proof (cases "10 < d")
    case True
    then show ?thesis by (simp add: beyond_bound del: deepExtractAssetIds.simps)
  next
    case False
    with JObj.prems obtain m where n: "n = Suc m" and m: "11 \<le> m + (d + 1)"
      by (cases n) auto
    have "map (\<lambda>(key, val). deepExtractAssetIds val (d + 1)) (map (\<lambda>(k, v). (k, cut m v)) kvs)
        = map (\<lambda>(key, val). deepExtractAssetIds val (d + 1)) kvs"
    proof (simp only: map_map comp_def, rule map_cong [OF refl])
      fix x assume x: "x \<in> set kvs"
      obtain k v where kv: "x = (k, v)" by (cases x)
      have "v \<in> Basic_BNFs.snds x" using kv by simp
      with x have "deepExtractAssetIds (cut m v) (d + 1) = deepExtractAssetIds v (d + 1)"
        using m by (rule JObj.IH)
      with kv show "(case case x of (k, v) \<Rightarrow> (k, cut m v) of
                       (key, val) \<Rightarrow> deepExtractAssetIds val (d + 1))
                  = (case x of (key, val) \<Rightarrow> deepExtractAssetIds val (d + 1))"
        by simp
    qed
    then show ?thesis
      by (simp only: n cut.simps deepExtractAssetIds_JObj scanIdKeys_cut)
  qed
qed simp_all

subsection \<open>The claims about the resolver\<close>




text \<open>
  C5 (as amended).  For non-empty \<open>X\<close> and \<open>Y\<close> the shapes that carry the
  identifier under a recognised key resolve to \<open>[X]\<close> (to \<open>[X, Y]\<close> for
  \<^verbatim>\<open>asset_ids\<close>), order preserved; the bare top-level array resolves to
  \<open>[X, Y]\<close> when both strings have at least 10 characters.
\<close>

theorem resolve_documented_shapes:
  assumes "X \<noteq> []" and "Y \<noteq> []"
  shows "resolve (JObj [(''asset_id'', JStr X)]) = [X]
       \<and> resolve (JObj [(''id'', JStr X)]) = [X]
       \<and> resolve (JObj [(''results'', JArr [JObj [(''asset_id'', JStr X)]])]) = [X]
       \<and> resolve (JObj [(''asset_ids'', JArr [JStr X, JStr Y])]) = [X, Y]
       \<and> resolve (JObj [(''data'', JObj [(''wrapper'', JObj [(''file'',
            JObj [(''id'', JStr X)])])])]) = [X]
       \<and> (10 \<le> length X \<and> 10 \<le> length Y
            \<longrightarrow> resolve (JArr [JStr X, JStr Y]) = [X, Y])"
  using assms by (simp add: resolve_def scanIdKeys_def idKeys_def)

text \<open>C5, witness: two identifiers of ten characters satisfy every hypothesis.\<close>

theorem resolve_documented_shapes_witness:
  "''asset-0001'' \<noteq> [] \<and> ''asset-0002'' \<noteq> [] \<and>
   10 \<le> length ''asset-0001'' \<and> 10 \<le> length ''asset-0002'' \<and>
   resolve (JObj [(''asset_ids'', JArr [JStr ''asset-0001'', JStr ''asset-0002''])])
     = [''asset-0001'', ''asset-0002''] \<and>
   resolve (JArr [JStr ''asset-0001'', JStr ''asset-0002'']) = [''asset-0001'', ''asset-0002'']"
  using resolve_documented_shapes [of "''asset-0001''" "''asset-0002''"] by simp

text \<open>
  C5, the claim as stated fails: the one-character strings of the bare array are below
  the length threshold and nothing is returned.
\<close>

theorem resolve_bare_short_counterexample:
  "resolve (JArr [JStr ''X'', JStr ''Y'']) \<noteq> [''X'', ''Y'']"
  by (simp add: resolve_def)

text \<open>
  C6 (as amended).  The recursion is bounded at depth 10, the entry point being depth
  0.  A call at a depth above 10 returns the empty list, which is a result and not an
  error; hence the result for an input is the result for the input cut below depth 11
  (\<open>cut 11\<close>).  An identifier is found under any number of plain levels up to 10 and
  under no greater number, whether the levels are arrays or mappings: this holds for
  a non-empty string under a recognised key of a mapping (whatever else that mapping
  holds under a key that is not recognised), and for a string of at least 10
  characters in an array.  So an identifier held at depth 10 is found, and one held
  only at depth 11 or 12 is not.
\<close>

theorem resolve_depth_bound:
  "(10 < d \<longrightarrow> deepExtractAssetIds v d = [])
   \<and> resolve (cut 11 raw) = resolve raw
   \<and> (list_all plainLevel p \<and> k \<in> set idKeys \<and> x \<noteq> [] \<and> k' \<notin> set idKeys
      \<longrightarrow> resolve (enclose p (JObj [(k, JStr x), (k', deeper)]))
            = (if length p \<le> 10 then [x] else []))
   \<and> (list_all plainLevel p \<and> 10 \<le> length x
      \<longrightarrow> resolve (enclose p (JArr [JStr x])) = (if length p \<le> 10 then [x] else []))
   \<and> (x \<noteq> [] \<longrightarrow> resolve (nested n m x) = (if n \<le> 10 then [x] else []))"
proof (intro conjI impI)
  assume "10 < d"
  then show "deepExtractAssetIds v d = []" by (rule beyond_bound)
next
  show "resolve (cut 11 raw) = resolve raw"
    unfolding resolve_def by (rule deepExtractAssetIds_cut) simp
next
  assume "list_all plainLevel p \<and> k \<in> set idKeys \<and> x \<noteq> [] \<and> k' \<notin> set idKeys"
  then show "resolve (enclose p (JObj [(k, JStr x), (k', deeper)]))
            = (if length p \<le> 10 then [x] else [])"
    by (intro resolve_enclosed_key) simp_all
next
  assume "list_all plainLevel p \<and> 10 \<le> length x"
  then show "resolve (enclose p (JArr [JStr x])) = (if length p \<le> 10 then [x] else [])"
    by (intro resolve_enclosed_array) simp_all
next
  assume "x \<noteq> []"
  then show "resolve (nested n m x) = (if n \<le> 10 then [x] else [])"
    by (simp add: resolve_def nested_def deepExtractAssetIds_wrap deepExtractAssetIds_JObj
          scan_id del: deepExtractAssetIds.simps)
qed

text \<open>
  C6, witness: under 10 levels that alternate between arrays and mappings the
  identifier is found, under 11 it is not.
\<close>

theorem resolve_depth_bound_witness:
  "(10::nat) < 11
   \<and> deepExtractAssetIds (JObj [(''id'', JStr ''long-identifier-123'')]) 11 = []
   \<and> list_all plainLevel (mixedPath 10) \<and> list_all plainLevel (mixedPath 11)
   \<and> ''id'' \<in> set idKeys \<and> ''long-identifier-123'' \<noteq> [] \<and> ''more'' \<notin> set idKeys
   \<and> 10 \<le> length ''long-identifier-123''
   \<and> resolve (enclose (mixedPath 10)
        (JObj [(''id'', JStr ''long-identifier-123''), (''more'', JArr [JObj []])]))
       = [''long-identifier-123'']
   \<and> resolve (enclose (mixedPath 11)
        (JObj [(''id'', JStr ''long-identifier-123''), (''more'', JArr [JObj []])])) = []
   \<and> resolve (enclose (mixedPath 10) (JArr [JStr ''long-identifier-123'']))
       = [''long-identifier-123'']
   \<and> resolve (enclose (mixedPath 11) (JArr [JStr ''long-identifier-123''])) = []
   \<and> resolve (nested 10 5 ''long-identifier-123'') = [''long-identifier-123'']
   \<and> resolve (nested 11 4 ''long-identifier-123'') = []"
proof -
  let ?x = "''long-identifier-123''"
  let ?deeper = "JArr [JObj []]"
  have p10: "list_all plainLevel (mixedPath 10)" by code_simp
  have p11: "list_all plainLevel (mixedPath 11)" by code_simp
  have l10: "length (mixedPath 10) = 10" by code_simp
  have l11: "length (mixedPath 11) = 11" by code_simp
  have k: "''id'' \<in> set idKeys" by (simp add: idKeys_def)
  have k': "''more'' \<notin> set idKeys" by (simp add: idKeys_def)
  have x: "?x \<noteq> []" by simp
  have lx: "10 \<le> length ?x" by simp
  from resolve_depth_bound
         [of 11 "JObj [(''id'', JStr ?x)]" JNull "mixedPath 10" "''id''" ?x "''more''" ?deeper 10 5]
       resolve_depth_bound
         [of 11 "JObj [(''id'', JStr ?x)]" JNull "mixedPath 11" "''id''" ?x "''more''" ?deeper 11 4]
       p10 p11 l10 l11 k k' x lx
  show ?thesis by simp
qed

text \<open>
  C6, the claim as stated fails: in a response nested 15 levels below its top, the
  identifier held by the mapping at depth 12 is not found, nor is the one held by the
  mapping at depth 11 (whose value lies 12 levels below the top).
\<close>

theorem depth_12_not_found_counterexample:
  "''long-identifier-123'' \<notin> set (resolve (nested 12 3 ''long-identifier-123''))
   \<and> ''long-identifier-123'' \<notin> set (resolve (nested 11 4 ''long-identifier-123''))"
  by (simp add: resolve_def nested_def deepExtractAssetIds_wrap beyond_bound
           del: deepExtractAssetIds.simps)

text \<open>
  C7.  A string of fewer than 10 characters that nowhere in the input sits under a
  recognised key (neither as the value of the key nor as an element of its array) is
  not in the result; in particular a short bare element of an array is left out.
\<close>

theorem short_unnamed_strings_excluded:
  assumes "length s < 10" and "s \<notin> set (namedStrings raw)"
  shows "s \<notin> set (resolve raw)"
  using assms short_or_named [of s raw 0] by (auto simp: resolve_def)

text \<open>C7, witness: a short bare element beside a long one and a named one.\<close>

theorem short_unnamed_strings_excluded_witness:
  "length ''short'' < 10 \<and> ''short'' \<notin> set (namedStrings mixedArray) \<and>
   ''short'' \<notin> set (resolve mixedArray)"
proof -
  have l: "length ''short'' < 10" by simp
  have n: "''short'' \<notin> set (namedStrings mixedArray)"
    by (simp add: mixedArray_def idKeys_def)
  from l n short_unnamed_strings_excluded [OF l n] show ?thesis by blast
qed

text \<open>
  C10.  At a mapping inside the depth bound, when the scan of the recognised keys
  yields an identifier the result is that scan alone and does not depend on any
  other entry of the mapping; the recursion into the entries runs only when the scan
  yields nothing.  So \<^verbatim>\<open>{id: "x", nested: {asset_id: "long-identifier-123"}}\<close>
  resolves to \<open>[x]\<close>.
\<close>

theorem named_keys_shadow_nested_values:
  "(depth \<le> 10 \<and> scanIdKeys obj \<noteq> [] \<and> (\<forall>k \<in> set idKeys. map_of obj' k = map_of obj k)
      \<longrightarrow> deepExtractAssetIds (JObj obj) depth = scanIdKeys obj
          \<and> deepExtractAssetIds (JObj obj') depth = deepExtractAssetIds (JObj obj) depth)
   \<and> (depth \<le> 10 \<and> scanIdKeys obj = []
      \<longrightarrow> deepExtractAssetIds (JObj obj) depth
            = concat (map (\<lambda>(key, val). deepExtractAssetIds val (depth + 1)) obj))
   \<and> resolve (JObj [(''id'', JStr ''x''),
                     (''nested'', JObj [(''asset_id'', JStr ''long-identifier-123'')])]) = [''x'']"
proof (intro conjI impI)
  assume a: "depth \<le> 10 \<and> scanIdKeys obj \<noteq> []
             \<and> (\<forall>k \<in> set idKeys. map_of obj' k = map_of obj k)"
  then have "scanIdKeys obj' = scanIdKeys obj" by (intro scanIdKeys_cong) simp
  with a show "deepExtractAssetIds (JObj obj') depth = deepExtractAssetIds (JObj obj) depth"
    by (simp add: deepExtractAssetIds_JObj del: deepExtractAssetIds.simps)
  from a show "deepExtractAssetIds (JObj obj) depth = scanIdKeys obj"
    by (simp add: deepExtractAssetIds_JObj del: deepExtractAssetIds.simps)
next
  assume "depth \<le> 10 \<and> scanIdKeys obj = []"
  then show "deepExtractAssetIds (JObj obj) depth
            = concat (map (\<lambda>(key, val). deepExtractAssetIds val (depth + 1)) obj)"
    by (simp add: deepExtractAssetIds_JObj del: deepExtractAssetIds.simps)
next
  show "resolve (JObj [(''id'', JStr ''x''),
                     (''nested'', JObj [(''asset_id'', JStr ''long-identifier-123'')])]) = [''x'']"
    by (simp add: resolve_def scanIdKeys_def idKeys_def)
qed

text \<open>
  C10, witness: a mapping whose \<^verbatim>\<open>id\<close> hides a nested identifier, and a mapping
  without recognised keys whose entry is searched.
\<close>

theorem named_keys_shadow_nested_values_witness:
  "(0::nat) \<le> 10
   \<and> scanIdKeys [(''id'', JStr ''x''),
                  (''nested'', JObj [(''asset_id'', JStr ''long-identifier-123'')])] \<noteq> []
   \<and> list_all (\<lambda>k.
         map_of [(''id'', JStr ''x'')] k
         = map_of [(''id'', JStr ''x''),
                   (''nested'', JObj [(''asset_id'', JStr ''long-identifier-123'')])] k) idKeys
   \<and> deepExtractAssetIds (JObj [(''id'', JStr ''x''),
                  (''nested'', JObj [(''asset_id'', JStr ''long-identifier-123'')])]) 0
       = deepExtractAssetIds (JObj [(''id'', JStr ''x'')]) 0
   \<and> scanIdKeys [(''nested'', JObj [(''asset_id'', JStr ''long-identifier-123'')])] = []
   \<and> deepExtractAssetIds
         (JObj [(''nested'', JObj [(''asset_id'', JStr ''long-identifier-123'')])]) 0
       = deepExtractAssetIds (JObj [(''asset_id'', JStr ''long-identifier-123'')]) 1"
proof -
  let ?big = "[(''id'', JStr ''x''),
               (''nested'', JObj [(''asset_id'', JStr ''long-identifier-123'')])]"
  let ?small = "[(''id'', JStr ''x'')]"
  let ?plain = "[(''nested'', JObj [(''asset_id'', JStr ''long-identifier-123'')])]"
  have h1: "(0::nat) \<le> 10" by simp
  have h2: "scanIdKeys ?big \<noteq> []" by (simp add: scanIdKeys_def idKeys_def)
  have h3: "\<forall>k \<in> set idKeys. map_of ?small k = map_of ?big k" by (simp add: idKeys_def)
  have h4: "scanIdKeys ?plain = []" by (simp add: scanIdKeys_def idKeys_def)
  from named_keys_shadow_nested_values [of 0 ?big ?small] h1 h2 h3
  have c1: "deepExtractAssetIds (JObj ?big) 0 = deepExtractAssetIds (JObj ?small) 0"
    by simp
  from named_keys_shadow_nested_values [of 0 ?plain ?plain] h1 h4
  have c2: "deepExtractAssetIds (JObj ?plain) 0
            = deepExtractAssetIds (JObj [(''asset_id'', JStr ''long-identifier-123'')]) 1"
    by simp
  from h3 have h3': "list_all (\<lambda>k. map_of ?small k = map_of ?big k) idKeys"
    by (simp only: list_all_iff)
  from h1 h2 h3' h4 c1 c2 show ?thesis by blast
qed


section \<open>Properties of the upload route\<close>

lemma serverError_body:
  "success (body (serverError env e)) = False \<and> asset_ids (body (serverError env e)) = []"
  by (cases e) simp

lemma okResponse_body:
  "okResponse env fs entries r txt d = Inr res \<Longrightarrow>
   success (body res) = (asset_ids (body res) \<noteq> [])"
  by (auto simp: okResponse_def Let_def split: sum.splits)

lemma invariant_serverError: "invariant (body (serverError env e))"
  by (simp add: invariant_def serverError_body)

lemma invariant_failedResponse:
  "invariant (body (fst (case failedResponse env fs r txt d of
                     Inl e \<Rightarrow> (serverError env e, called)
                   | Inr res \<Rightarrow> (res, called))))"
proof (cases "carriesBody (resp_status r)")
  case True
  then show ?thesis by (simp add: failedResponse_def invariant_def)
next
  case False
  then show ?thesis by (simp add: failedResponse_def invariant_def)
qed

lemma invariant_okResponse:
  "okResponse env fs entries r txt d = Inr res \<Longrightarrow> invariant (body res)"
  by (simp add: invariant_def okResponse_body)

lemma invariant_upstream:
  "invariant (body (fst (case okResponse env fs entries r txt d of
                     Inl e \<Rightarrow> (serverError env e, called)
                   | Inr res \<Rightarrow> (res, called))))"
  by (cases "okResponse env fs entries r txt d")
     (simp_all add: invariant_serverError invariant_okResponse)

text \<open>The calls of the loop: a second one exactly after a readable 400 or 422.\<close>

lemma uploadLoop_called:
  "snd (uploadLoop env entries [''file'', ''files''] vars []) =
     (if clientErrorStatus (fetch env LYZR_UPLOAD_URL (LYZR_API_KEY env)
            (map (\<lambda>entry. (''file'', entry_blob entry, entry_name entry)) entries))
      then [''file'', ''files''] else [''file''])"
  by (auto simp: Let_def clientErrorStatus_def ok_def split: sum.splits)

text \<open>
  C1.  Every body the handler returns satisfies the invariant: \<open>success\<close> holds exactly
  when \<open>asset_ids\<close> is not empty.  The statement ranges over every environment and
  request, hence over every branch: missing key, no files, upstream success with or
  without identifiers, upstream failure, and a thrown exception.
\<close>

theorem POST_invariant: "invariant (body (POST env req))"
proof (cases "LYZR_API_KEY env = []")
  case True
  then show ?thesis by (simp add: POST_def POST_run_def invariant_def)
next
  case key: False
  show ?thesis
  proof (cases req)
    case (Inl e)
    with key show ?thesis by (simp add: POST_def POST_run_def invariant_serverError)
  next
    case (Inr formData)
    show ?thesis
    proof (cases "getAll formData ''files'' = []")
      case True
      with key Inr show ?thesis by (simp add: POST_def POST_run_def invariant_def)
    next
      case False
      obtain res called where loop:
        "uploadLoop env (fileEntries (getAll formData ''files'')) [''file'', ''files'']
           \<lparr>response = None, responseText = [], data = JObj []\<rparr> [] = (res, called)"
        by (cases "uploadLoop env (fileEntries (getAll formData ''files'')) [''file'', ''files'']
           \<lparr>response = None, responseText = [], data = JObj []\<rparr> []")
      show ?thesis
      proof (cases res)
        case (Inl e)
        with key Inr False loop show ?thesis
          by (simp add: POST_def POST_run_def Let_def invariant_serverError
                   del: uploadLoop.simps)
      next
        case vars: (Inr vars)
        show ?thesis
        proof (cases "response vars")
          case None
          with key Inr False loop vars show ?thesis
            by (simp add: POST_def POST_run_def Let_def invariant_def del: uploadLoop.simps)
        next
          case (Some r)
          with key Inr False loop vars show ?thesis
            by (simp add: POST_def POST_run_def Let_def invariant_upstream
                  invariant_failedResponse del: uploadLoop.simps)
        qed
      qed
    qed
  qed
qed

text \<open>C1, at an upstream success without identifiers: \<open>success\<close> is false, the list empty.\<close>

theorem POST_invariant_witness:
  "invariant (body (POST emptyObjectEnv (Inr oneFileForm)))
   \<and> success (body (POST emptyObjectEnv (Inr oneFileForm))) = False
   \<and> asset_ids (body (POST emptyObjectEnv (Inr oneFileForm))) = []"
proof -
  have "asset_ids (body (POST emptyObjectEnv (Inr oneFileForm))) = []"
    by code_simp
  with POST_invariant [of emptyObjectEnv "Inr oneFileForm"] show ?thesis
    by (simp add: invariant_def)
qed

text \<open>
  C3 (as amended).  When the handler reaches the upload (the key is configured and the
  form holds at least one entry under \<^verbatim>\<open>files\<close>), it calls the upstream twice,
  with \<^verbatim>\<open>file\<close> and then \<^verbatim>\<open>files\<close>, exactly when the first call returns a
  response with a readable body and status 400 or 422; after any other first outcome,
  a success without identifiers included, it has made the one call with \<^verbatim>\<open>file\<close>.
\<close>

theorem retry_only_on_400_or_422:
  assumes "LYZR_API_KEY env \<noteq> []" and "getAll formData ''files'' \<noteq> []"
  shows "uploadAttempts env (Inr formData) =
           (if clientErrorStatus (firstAttempt env formData)
            then [''file'', ''files''] else [''file''])"
proof -
  obtain res called where loop:
    "uploadLoop env (fileEntries (getAll formData ''files'')) [''file'', ''files'']
       \<lparr>response = None, responseText = [], data = JObj []\<rparr> [] = (res, called)"
    by (cases "uploadLoop env (fileEntries (getAll formData ''files'')) [''file'', ''files'']
       \<lparr>response = None, responseText = [], data = JObj []\<rparr> []")
  have "uploadAttempts env (Inr formData) = called"
  proof (cases res)
    case (Inl e)
    with assms loop show ?thesis
      by (simp add: uploadAttempts_def POST_run_def Let_def del: uploadLoop.simps)
  next
    case vars: (Inr vars)
    show ?thesis
    proof (cases "response vars")
      case None
      with assms loop vars show ?thesis
        by (simp add: uploadAttempts_def POST_run_def Let_def del: uploadLoop.simps)
    next
      case (Some r)
      have a: "snd (case okResponse env (getAll formData ''files'')
                      (fileEntries (getAll formData ''files'')) r (responseText vars) (data vars) of
                 Inl e \<Rightarrow> (serverError env e, called) | Inr res \<Rightarrow> (res, called)) = called"
        by (simp split: sum.splits)
      have b: "snd (case failedResponse env (getAll formData ''files'') r
                      (responseText vars) (data vars) of
                 Inl e \<Rightarrow> (serverError env e, called) | Inr res \<Rightarrow> (res, called)) = called"
        by (simp split: sum.splits)
      from assms loop vars Some a b show ?thesis
        by (simp add: uploadAttempts_def POST_run_def Let_def del: uploadLoop.simps)
    qed
  qed
  also have "called = snd (uploadLoop env (fileEntries (getAll formData ''files''))
       [''file'', ''files''] \<lparr>response = None, responseText = [], data = JObj []\<rparr> [])"
    by (simp only: loop snd_conv)
  finally show ?thesis
    by (simp only: uploadLoop_called firstAttempt_def)
qed

text \<open>C3, witness: an upstream that answers 422 to \<^verbatim>\<open>file\<close> is called twice.\<close>

theorem retry_only_on_400_or_422_witness:
  "LYZR_API_KEY rejectsFileEnv \<noteq> [] \<and> getAll oneFileForm ''files'' \<noteq> [] \<and>
   clientErrorStatus (firstAttempt rejectsFileEnv oneFileForm) \<and>
   uploadAttempts rejectsFileEnv (Inr oneFileForm) = [''file'', ''files'']"
proof -
  have k: "LYZR_API_KEY rejectsFileEnv \<noteq> []"
    by (simp add: LYZR_API_KEY_def rejectsFileEnv_def)
  have f: "getAll oneFileForm ''files'' \<noteq> []"
    by (simp add: getAll_def oneFileForm_def)
  have c: "clientErrorStatus (firstAttempt rejectsFileEnv oneFileForm)"
    by (simp add: clientErrorStatus_def firstAttempt_def rejectsFileEnv_def rejectsFile_def
          getAll_def oneFileForm_def)
  from retry_only_on_400_or_422 [OF k f] c k f show ?thesis by simp
qed

text \<open>
  C3, the claim as stated fails: the first call succeeds with status 200 and a body in
  which no identifier is found, and no second call is made.
\<close>

theorem ok_without_ids_counterexample:
  "firstAttempt emptyObjectEnv oneFileForm = Inr \<lparr>resp_status = 200, resp_text = Inr ''{}''\<rparr>
   \<and> resolve (JObj []) = []
   \<and> asset_ids (body (POST emptyObjectEnv (Inr oneFileForm))) = []
   \<and> uploadAttempts emptyObjectEnv (Inr oneFileForm) = [''file'']"
  by code_simp

section \<open>Properties of the page\<close>

lemma handleAnalyze_result:
  assumes "assetIds st \<noteq> []" and "agentCall env st = Inr raw"
  shows "handleAnalyze env st =
           (onResult env raw
              (st\<lparr>analyzing := True, errorMsg := Some JNull, insights := Some JNull,
                  pdfUrl := Some JNull, activeAgentId := Some AGENT_ID, processing := True\<rparr>))
           \<lparr>analyzing := False, activeAgentId := None, processing := False\<rparr>"
  using assms by (simp add: handleAnalyze_def agentCall_def Let_def)

lemma readyState_assetIds: "assetIds readyState \<noteq> []"
  by (simp add: readyState_def)

lemma agentCall_agentEnv: "agentCall (agentEnv raw) st = Inr raw"
  by (simp add: agentCall_def agentEnv_def agentReturns_def)

text \<open>
  C2.  When the agent reports success and \<^verbatim>\<open>response.result\<close> is a string that
  \<^verbatim>\<open>JSON.parse\<close> rejects, the insights are the mapping with the one field
  \<^verbatim>\<open>executive_summary\<close> holding the string unchanged; no error is set; and every
  list read by the display is empty, the statistics reads giving their placeholders.
\<close>

theorem unparseable_text_becomes_summary:
  assumes "assetIds st \<noteq> []"
    and "agentCall env st = Inr raw"
    and "truthy (opt_get raw ''success'')"
    and "opt_get (opt_get raw ''response'') ''result'' = Some (JStr t)"
    and "page_JSON_parse env t = None"
  shows "insights (handleAnalyze env st) = Some (JObj [(''executive_summary'', JStr t)])
       \<and> errorMsg (handleAnalyze env st) = Some JNull
       \<and> summaryShown (insights (handleAnalyze env st)) = Some (JStr t)
       \<and> findings (insights (handleAnalyze env st)) = []
       \<and> patterns (insights (handleAnalyze env st)) = []
       \<and> anomalies (insights (handleAnalyze env st)) = []
       \<and> recommendations (insights (handleAnalyze env st)) = []
       \<and> keyMetrics (insights (handleAnalyze env st)) = []
       \<and> rowsShown (insights (handleAnalyze env st)) = Some (JStr ''--'')
       \<and> columnsShown (insights (handleAnalyze env st)) = Some (JStr ''--'')"
proof -
  have ins: "insights (handleAnalyze env st) = Some (JObj [(''executive_summary'', JStr t)])"
    using assms(3-5)
    by (simp add: handleAnalyze_result [OF assms(1,2)] onResult_def Let_def)
  have err: "errorMsg (handleAnalyze env st) = Some JNull"
    using assms(3-5)
    by (simp add: handleAnalyze_result [OF assms(1,2)] onResult_def Let_def)
  show ?thesis
    by (simp add: ins err summaryShown_def findings_def patterns_def anomalies_def
          recommendations_def keyMetrics_def rowsShown_def columnsShown_def
          arrayOrEmpty_def js_nc_def)
qed

text \<open>C2, witness: the response \<^verbatim>\<open>{success: true, response: {result: "not json"}}\<close>.\<close>

theorem unparseable_text_becomes_summary_witness:
  "assetIds readyState \<noteq> []
   \<and> agentCall (agentEnv notJsonResponse) readyState = Inr notJsonResponse
   \<and> truthy (opt_get notJsonResponse ''success'')
   \<and> opt_get (opt_get notJsonResponse ''response'') ''result'' = Some (JStr ''not json'')
   \<and> page_JSON_parse (agentEnv notJsonResponse) ''not json'' = None
   \<and> insights (handleAnalyze (agentEnv notJsonResponse) readyState)
       = Some (JObj [(''executive_summary'', JStr ''not json'')])
   \<and> findings (insights (handleAnalyze (agentEnv notJsonResponse) readyState)) = []
   \<and> errorMsg (handleAnalyze (agentEnv notJsonResponse) readyState) = Some JNull"
proof -
  have h3: "truthy (opt_get notJsonResponse ''success'')"
    by (simp add: notJsonResponse_def)
  have h4: "opt_get (opt_get notJsonResponse ''response'') ''result'' = Some (JStr ''not json'')"
    by (simp add: notJsonResponse_def)
  have h5: "page_JSON_parse (agentEnv notJsonResponse) ''not json'' = None"
    by (simp add: agentEnv_def parsesEmptyObject_def)
  from unparseable_text_becomes_summary [OF readyState_assetIds agentCall_agentEnv h3 h4 h5]
    readyState_assetIds agentCall_agentEnv h3 h4 h5
  show ?thesis by blast
qed

text \<open>
  C8.  When the agent's response does not report success, no insights are set (they
  stay \<^verbatim>\<open>null\<close>, as does the report URL) and the error is \<^verbatim>\<open>raw.error\<close> if
  that is present (neither absent nor \<^verbatim>\<open>null\<close>), else
  \<^verbatim>\<open>raw.response.message\<close> if that is present, else the generic message.
\<close>

theorem failure_sets_error_only:
  assumes "assetIds st \<noteq> []"
    and "agentCall env st = Inr raw"
    and "\<not> truthy (opt_get raw ''success'')"
  shows "insights (handleAnalyze env st) = Some JNull
       \<and> pdfUrl (handleAnalyze env st) = Some JNull
       \<and> errorMsg (handleAnalyze env st) =
           (if \<not> nullish (opt_get raw ''error'') then opt_get raw ''error''
            else if \<not> nullish (opt_get (opt_get raw ''response'') ''message'')
              then opt_get (opt_get raw ''response'') ''message''
            else Some (JStr ''Analysis failed. Please try again.''))"
  using assms(3)
  by (simp add: handleAnalyze_result [OF assms(1,2)] onResult_def Let_def js_nc_def)

text \<open>C8, witness: the response \<^verbatim>\<open>{success: false, error: "X"}\<close>.\<close>

theorem failure_sets_error_only_witness:
  "assetIds readyState \<noteq> []
   \<and> agentCall (agentEnv failedResponseX) readyState = Inr failedResponseX
   \<and> \<not> truthy (opt_get failedResponseX ''success'')
   \<and> insights (handleAnalyze (agentEnv failedResponseX) readyState) = Some JNull
   \<and> errorMsg (handleAnalyze (agentEnv failedResponseX) readyState) = Some (JStr ''X'')"
proof -
  have h3: "\<not> truthy (opt_get failedResponseX ''success'')"
    by (simp add: failedResponseX_def)
  have e: "opt_get failedResponseX ''error'' = Some (JStr ''X'')"
    by (simp add: failedResponseX_def)
  from failure_sets_error_only [OF readyState_assetIds agentCall_agentEnv h3]
    readyState_assetIds agentCall_agentEnv h3 e
  show ?thesis by simp
qed

text \<open>
  C9 (as amended).  When the agent's response reports success, the report URL is the
  \<^verbatim>\<open>file_url\<close> of the first element of \<^verbatim>\<open>module_outputs.artifact_files\<close>
  if that is a non-empty array and the URL is truthy (present and not empty); later
  elements are not read; otherwise no URL is set, and in no case is an error set.
  When the response does not report success, no URL is set.
\<close>

theorem report_url_first_artifact:
  assumes "assetIds st \<noteq> []"
    and "agentCall env st = Inr raw"
  shows "pdfUrl (handleAnalyze env st) =
           (if truthy (opt_get raw ''success'')
            then (case opt_get (opt_get raw ''module_outputs'') ''artifact_files'' of
                    Some (JArr (first # later)) \<Rightarrow>
                      (if truthy (opt_get (Some first) ''file_url'')
                       then opt_get (Some first) ''file_url'' else Some JNull)
                  | _ \<Rightarrow> Some JNull)
            else Some JNull)
       \<and> (truthy (opt_get raw ''success'') \<longrightarrow> errorMsg (handleAnalyze env st) = Some JNull)"
  by (simp add: handleAnalyze_result [OF assms(1,2)] onResult_def Let_def
           split: option.splits json.splits list.splits)

text \<open>C9, witness: of two artifacts of a successful response the first gives the URL.\<close>

theorem report_url_first_artifact_witness:
  "assetIds readyState \<noteq> []
   \<and> agentCall (agentEnv succeededWithArtifacts) readyState = Inr succeededWithArtifacts
   \<and> truthy (opt_get succeededWithArtifacts ''success'')
   \<and> pdfUrl (handleAnalyze (agentEnv succeededWithArtifacts) readyState) = Some (JStr ''U1'')
   \<and> errorMsg (handleAnalyze (agentEnv succeededWithArtifacts) readyState) = Some JNull"
proof -
  have t: "truthy (opt_get succeededWithArtifacts ''success'')"
    by (simp add: succeededWithArtifacts_def)
  have a: "opt_get (opt_get succeededWithArtifacts ''module_outputs'') ''artifact_files''
           = Some (JArr [JObj [(''file_url'', JStr ''U1'')], JObj [(''file_url'', JStr ''U2'')]])"
    by (simp add: succeededWithArtifacts_def twoArtifacts_def)
  from report_url_first_artifact [OF readyState_assetIds agentCall_agentEnv]
    readyState_assetIds agentCall_agentEnv t a
  show ?thesis by simp
qed

text \<open>
  C9, the claim as stated fails: a response that does not report success but carries
  two artifacts yields no report URL.
\<close>

theorem report_url_failure_counterexample:
  "pdfUrl (handleAnalyze (agentEnv failedWithArtifacts) readyState) \<noteq> Some (JStr ''U1'')"
  by code_simp

end
